theory Spec2Isabelle
  imports Main "HOL-Library.Sublist"
begin

section \<open>The CSS selector builder of \<^verbatim>\<open>src/05-objects-tasks.js\<close>\<close>

text \<open>
  The file exports a facade object \<^verbatim>\<open>cssSelectorBuilder\<close> whose six factory
  functions create a \<^verbatim>\<open>BuilderHelper\<close> and call the fragment method of the same
  name on it, and whose \<^verbatim>\<open>combine\<close> and \<^verbatim>\<open>stringify\<close> work on a
  \<^verbatim>\<open>res\<close> property of the facade object itself.

  Methods mutate \<^verbatim>\<open>this\<close> and may throw. A method is therefore a function from
  the object's state to a completion (normal, or the thrown error) together with the
  object's state after the call; the state after a throw is whatever had been written
  before the \<^verbatim>\<open>throw\<close> statement ran. Every fragment method ends with
  \<^verbatim>\<open>return this\<close>: the object it returns is the receiver, whose state is the
  second component.
\<close>

subsection \<open>JavaScript values\<close>

text \<open>\<^verbatim>\<open>new Error(message)\<close>: the only error the file throws.\<close>

datatype js_error = Error string

datatype completion = Normal | Throw js_error

text \<open>
  A value that may be \<^verbatim>\<open>undefined\<close> is an option, \<open>None\<close> being
  \<^verbatim>\<open>undefined\<close>. \<open>ToString\<close> is the conversion JavaScript applies to a
  property key (\<^verbatim>\<open>this.order[x]\<close>) and to a template-literal substitution
  (\<^verbatim>\<open>`${x}`\<close>).
\<close>

definition ToString :: "string option \<Rightarrow> string" where
  "ToString v = (case v of None \<Rightarrow> ''undefined'' | Some s \<Rightarrow> s)"

text \<open>\<^verbatim>\<open>xs.at(-1)\<close>: the last element, \<^verbatim>\<open>undefined\<close> on an empty array.\<close>

definition at_last :: "'a list \<Rightarrow> 'a option" where
  "at_last xs = (case rev xs of [] \<Rightarrow> None | x # _ \<Rightarrow> Some x)"

text \<open>
  \<^verbatim>\<open>a > b\<close> on the values an \<^verbatim>\<open>order\<close> lookup yields: a number, or
  \<^verbatim>\<open>undefined\<close>, which converts to NaN and makes the comparison false.
\<close>

definition js_gt :: "nat option \<Rightarrow> nat option \<Rightarrow> bool" where
  "js_gt a b = (case a of None \<Rightarrow> False
                | Some x \<Rightarrow> (case b of None \<Rightarrow> False | Some y \<Rightarrow> y < x))"

subsection \<open>\<^verbatim>\<open>class BuilderHelper\<close>\<close>

text \<open>
  The constructor sets six fields. Only \<^verbatim>\<open>res\<close> and \<^verbatim>\<open>usedSelectors\<close>
  are ever assigned again, so they are the record; the other four are the same in every
  instance and are constants here.
\<close>

record BuilderHelper =
  res :: string
  usedSelectors :: "string list"

definition new_BuilderHelper :: BuilderHelper where
  "new_BuilderHelper = \<lparr>res = '''', usedSelectors = []\<rparr>"

definition uniqueSelectors :: "string list" where
  "uniqueSelectors = [''element'', ''id'', ''pseudoElement'']"

text \<open>
  The object literal \<^verbatim>\<open>this.order\<close>, read by key. A key it does not hold gives
  \<^verbatim>\<open>undefined\<close>. The keys the class reads are the six literals its methods pass to
  \<^verbatim>\<open>errorHandler\<close> and, when \<^verbatim>\<open>usedSelectors\<close> is empty, the key
  \<^verbatim>\<open>'undefined'\<close>; the properties a JavaScript object inherits are not among them.
\<close>

definition order :: "string \<Rightarrow> nat option" where
  "order = map_of
     [(''element'', 0), (''id'', 1), (''class'', 2),
      (''attribute'', 3), (''pseudoClass'', 4), (''pseudoElement'', 5)]"

definition firstErr :: string where
  "firstErr =
     ''Element, id and pseudo-element should not occur more then one time inside the selector''"

definition secondErr :: string where
  "secondErr =
     ''Selector parts should be arranged in the following order: element, id, class, attribute, pseudo-class, pseudo-element''"

definition errorHandler :: "BuilderHelper \<Rightarrow> string \<Rightarrow> completion \<times> BuilderHelper" where
  "errorHandler this selector =
     (if selector \<in> set (usedSelectors this) \<and> selector \<in> set uniqueSelectors
      then (Throw (Error firstErr), this)
      else if js_gt (order (ToString (at_last (usedSelectors this)))) (order selector)
      then (Throw (Error secondErr), this)
      else (Normal, this\<lparr>usedSelectors := usedSelectors this @ [selector]\<rparr>))"

text \<open>
  Each fragment method is \<^verbatim>\<open>this.errorHandler(kind); this.res += text; return this\<close>.
  A throw of the first statement ends the method.
\<close>

definition and_then ::
  "completion \<times> BuilderHelper \<Rightarrow> (BuilderHelper \<Rightarrow> BuilderHelper) \<Rightarrow> completion \<times> BuilderHelper"
where
  "and_then r f = (case r of (Normal, this) \<Rightarrow> (Normal, f this) | (Throw e, this) \<Rightarrow> (Throw e, this))"

definition stringify :: "BuilderHelper \<Rightarrow> string \<times> BuilderHelper" where
  "stringify this = (res this, this)"

definition element :: "BuilderHelper \<Rightarrow> string \<Rightarrow> completion \<times> BuilderHelper" where
  "element this v =
     and_then (errorHandler this ''element'') (\<lambda>this. this\<lparr>res := res this @ v\<rparr>)"

definition id_selector :: "BuilderHelper \<Rightarrow> string \<Rightarrow> completion \<times> BuilderHelper" where
  "id_selector this v =
     and_then (errorHandler this ''id'') (\<lambda>this. this\<lparr>res := res this @ ''#'' @ v\<rparr>)"

definition class_selector :: "BuilderHelper \<Rightarrow> string \<Rightarrow> completion \<times> BuilderHelper" where
  "class_selector this v =
     and_then (errorHandler this ''class'') (\<lambda>this. this\<lparr>res := res this @ ''.'' @ v\<rparr>)"

definition attr :: "BuilderHelper \<Rightarrow> string \<Rightarrow> completion \<times> BuilderHelper" where
  "attr this v =
     and_then (errorHandler this ''attribute'')
       (\<lambda>this. this\<lparr>res := res this @ ''['' @ v @ '']''\<rparr>)"

definition pseudoClass :: "BuilderHelper \<Rightarrow> string \<Rightarrow> completion \<times> BuilderHelper" where
  "pseudoClass this v =
     and_then (errorHandler this ''pseudoClass'') (\<lambda>this. this\<lparr>res := res this @ '':'' @ v\<rparr>)"

definition pseudoElement :: "BuilderHelper \<Rightarrow> string \<Rightarrow> completion \<times> BuilderHelper" where
  "pseudoElement this v =
     and_then (errorHandler this ''pseudoElement'')
       (\<lambda>this. this\<lparr>res := res this @ ''::'' @ v\<rparr>)"

subsection \<open>The facade \<^verbatim>\<open>cssSelectorBuilder\<close>\<close>

text \<open>
  The object literal has no \<^verbatim>\<open>res\<close> property; \<^verbatim>\<open>combine\<close> creates it. Reading it
  before that gives \<^verbatim>\<open>undefined\<close>. The six factory functions are arrow functions
  that never touch the facade object.
\<close>

record cssSelectorBuilder =
  facade_res :: "string option"

definition cssSelectorBuilder_init :: cssSelectorBuilder where
  "cssSelectorBuilder_init = \<lparr>facade_res = None\<rparr>"

definition cssSelectorBuilder_id :: "string \<Rightarrow> completion \<times> BuilderHelper" where
  "cssSelectorBuilder_id v = id_selector new_BuilderHelper v"

definition cssSelectorBuilder_attr :: "string \<Rightarrow> completion \<times> BuilderHelper" where
  "cssSelectorBuilder_attr v = attr new_BuilderHelper v"

definition cssSelectorBuilder_class :: "string \<Rightarrow> completion \<times> BuilderHelper" where
  "cssSelectorBuilder_class v = class_selector new_BuilderHelper v"

definition cssSelectorBuilder_element :: "string \<Rightarrow> completion \<times> BuilderHelper" where
  "cssSelectorBuilder_element v = element new_BuilderHelper v"

definition cssSelectorBuilder_pseudoClass :: "string \<Rightarrow> completion \<times> BuilderHelper" where
  "cssSelectorBuilder_pseudoClass v = pseudoClass new_BuilderHelper v"

definition cssSelectorBuilder_pseudoElement :: "string \<Rightarrow> completion \<times> BuilderHelper" where
  "cssSelectorBuilder_pseudoElement v = pseudoElement new_BuilderHelper v"

text \<open>
  An argument of \<^verbatim>\<open>combine\<close> is an object with a \<^verbatim>\<open>res\<close> property: a
  \<^verbatim>\<open>BuilderHelper\<close>, of which \<^verbatim>\<open>combine\<close> only reads the text it holds at the
  call, or the facade object itself, which is what an earlier \<^verbatim>\<open>combine\<close> returned.
  The latter is a reference: its text is looked up in the facade's state when it is read.
\<close>

datatype selector = Builder BuilderHelper | Facade

definition res_of :: "cssSelectorBuilder \<Rightarrow> selector \<Rightarrow> string option" where
  "res_of this s = (case s of Builder b \<Rightarrow> Some (res b) | Facade \<Rightarrow> facade_res this)"

definition combine ::
  "cssSelectorBuilder \<Rightarrow> selector \<Rightarrow> string \<Rightarrow> selector \<Rightarrow> selector \<times> cssSelectorBuilder"
where
  "combine this selector1 combinator selector2 =
     (Facade,
      this\<lparr>facade_res :=
        Some (ToString (res_of this selector1) @ '' '' @ combinator @ '' '' @
              ToString (res_of this selector2))\<rparr>)"

definition cssSelectorBuilder_stringify ::
  "cssSelectorBuilder \<Rightarrow> string option \<times> cssSelectorBuilder"
where
  "cssSelectorBuilder_stringify this = (facade_res this, this)"

text \<open>\<^verbatim>\<open>s.stringify()\<close> on either kind of object, with the facade's state at the call.\<close>

definition stringify_of :: "cssSelectorBuilder \<Rightarrow> selector \<Rightarrow> string option" where
  "stringify_of this s =
     (case s of Builder b \<Rightarrow> Some (fst (stringify b))
      | Facade \<Rightarrow> fst (cssSelectorBuilder_stringify this))"

text \<open>
  Nested calls: an argument of \<^verbatim>\<open>combine\<close> that is itself a call of
  \<^verbatim>\<open>combine\<close> is evaluated before the enclosing call, the arguments from left to
  right. A leaf is a builder that some chain of fragment calls has produced.
\<close>

datatype expr = Sel BuilderHelper | Combine expr string expr

fun eval :: "cssSelectorBuilder \<Rightarrow> expr \<Rightarrow> selector \<times> cssSelectorBuilder" where
  "eval this (Sel b) = (Builder b, this)"
| "eval this (Combine l c r) =
     (case eval this l of
        (selector1, this1) \<Rightarrow>
          (case eval this1 r of
             (selector2, this2) \<Rightarrow> combine this2 selector1 c selector2))"

subsection \<open>Calls and sequences of calls\<close>

text \<open>
  A fragment kind names one of the six fragment methods; a fragment is a call of one of
  them with its argument. \<open>tag\<close> is the string literal the method of that kind passes to
  \<^verbatim>\<open>errorHandler\<close> (the method \<^verbatim>\<open>attr\<close> passes \<^verbatim>\<open>'attribute'\<close>).
\<close>

datatype kind =
  Element_kind | Id_kind | Class_kind | Attribute_kind | PseudoClass_kind | PseudoElement_kind

type_synonym fragment = "kind \<times> string"

fun tag :: "kind \<Rightarrow> string" where
  "tag Element_kind = ''element''"
| "tag Id_kind = ''id''"
| "tag Class_kind = ''class''"
| "tag Attribute_kind = ''attribute''"
| "tag PseudoClass_kind = ''pseudoClass''"
| "tag PseudoElement_kind = ''pseudoElement''"

fun apply_fragment :: "BuilderHelper \<Rightarrow> fragment \<Rightarrow> completion \<times> BuilderHelper" where
  "apply_fragment this (Element_kind, v) = element this v"
| "apply_fragment this (Id_kind, v) = id_selector this v"
| "apply_fragment this (Class_kind, v) = class_selector this v"
| "apply_fragment this (Attribute_kind, v) = attr this v"
| "apply_fragment this (PseudoClass_kind, v) = pseudoClass this v"
| "apply_fragment this (PseudoElement_kind, v) = pseudoElement this v"

text \<open>
  A chain \<^verbatim>\<open>b.m1(v1).m2(v2)...\<close>: each call is made on the object the previous one
  returned, and a throw ends the chain.
\<close>

fun chain :: "BuilderHelper \<Rightarrow> fragment list \<Rightarrow> completion \<times> BuilderHelper" where
  "chain this [] = (Normal, this)"
| "chain this (f # fs) =
     (case apply_fragment this f of
        (Normal, this') \<Rightarrow> chain this' fs
      | (Throw e, this') \<Rightarrow> (Throw e, this'))"

text \<open>
  A caller that catches the error keeps the object and may go on calling its methods.
  \<open>session\<close> makes every call of a list on one object, whatever the outcome of the
  calls before, and records next to the object's state the fragments whose call
  returned normally.
\<close>

fun attempt :: "BuilderHelper \<times> fragment list \<Rightarrow> fragment \<Rightarrow> BuilderHelper \<times> fragment list" where
  "attempt (this, accepted) f =
     (case apply_fragment this f of
        (Normal, this') \<Rightarrow> (this', accepted @ [f])
      | (Throw e, this') \<Rightarrow> (this', accepted))"

definition session :: "fragment list \<Rightarrow> BuilderHelper \<times> fragment list" where
  "session fs = foldl attempt (new_BuilderHelper, []) fs"

subsection \<open>The specification's vocabulary\<close>

text \<open>
  The rank table, the singleton kinds and the rendered form of a fragment, as the
  specification's data model and component design give them; the theorems below compare the
  code with them.
\<close>

fun RANK :: "kind \<Rightarrow> nat" where
  "RANK Element_kind = 0"
| "RANK Id_kind = 1"
| "RANK Class_kind = 2"
| "RANK Attribute_kind = 3"
| "RANK PseudoClass_kind = 4"
| "RANK PseudoElement_kind = 5"

definition SINGLETON_KINDS :: "kind set" where
  "SINGLETON_KINDS = {Element_kind, Id_kind, PseudoElement_kind}"

fun rendered :: "fragment \<Rightarrow> string" where
  "rendered (Element_kind, v) = v"
| "rendered (Id_kind, v) = ''#'' @ v"
| "rendered (Class_kind, v) = ''.'' @ v"
| "rendered (Attribute_kind, v) = ''['' @ v @ '']''"
| "rendered (PseudoClass_kind, v) = '':'' @ v"
| "rendered (PseudoElement_kind, v) = ''::'' @ v"

text \<open>The two validation rules on a sequence of kinds.\<close>

definition once_each :: "kind list \<Rightarrow> bool" where
  "once_each ks = (\<forall>k \<in> SINGLETON_KINDS. count_list ks k \<le> 1)"

definition valid_kinds :: "kind list \<Rightarrow> bool" where
  "valid_kinds ks = (sorted (map RANK ks) \<and> once_each ks)"

text \<open>
  What ties a builder to the fragments it has accepted: its applied kinds are their tags,
  its text is their rendered forms in that order, and their kinds obey both rules.
\<close>

definition consistent :: "BuilderHelper \<times> fragment list \<Rightarrow> bool" where
  "consistent s =
     (case s of
        (this, accepted) \<Rightarrow>
          usedSelectors this = map tag (map fst accepted) \<and>
          res this = concat (map rendered accepted) \<and>
          valid_kinds (map fst accepted))"

text \<open>
  The text a combination stands for: the left text, a space, the combinator, a space,
  the right text, at every level of nesting.
\<close>

fun text_of :: "expr \<Rightarrow> string" where
  "text_of (Sel b) = res b"
| "text_of (Combine l c r) = text_of l @ '' '' @ c @ '' '' @ text_of r"

text \<open>Combinations in which no call of \<^verbatim>\<open>combine\<close> has two combinations as arguments.\<close>

fun linear :: "expr \<Rightarrow> bool" where
  "linear (Sel b) = True"
| "linear (Combine (Sel a) c r) = linear r"
| "linear (Combine l c (Sel b)) = linear l"
| "linear (Combine l c r) = False"

section \<open>Properties\<close>

subsection \<open>The tables, read through the fragment kinds\<close>

lemma order_tag: "order (tag k) = Some (RANK k)"
  by (cases k) (simp_all add: order_def)

lemma order_undefined: "order ''undefined'' = None"
  by (simp add: order_def)

lemma tag_unique: "tag k \<in> set uniqueSelectors \<longleftrightarrow> k \<in> SINGLETON_KINDS"
  by (cases k) (simp_all add: uniqueSelectors_def SINGLETON_KINDS_def)

lemma tag_eq_iff: "tag j = tag k \<longleftrightarrow> j = k"
  by (cases j; cases k) simp_all

lemma tag_mem_iff: "tag k \<in> set (map tag ks) \<longleftrightarrow> k \<in> set ks"
  by (auto simp: tag_eq_iff)

lemma at_last_Nil: "at_last [] = None"
  by (simp add: at_last_def)

lemma at_last_snoc: "at_last (xs @ [x]) = Some x"
  by (simp add: at_last_def)

lemma errors_differ: "firstErr \<noteq> secondErr"
  by (simp add: firstErr_def secondErr_def)

lemma once_each_unfold:
  "once_each ks \<longleftrightarrow>
     count_list ks Element_kind \<le> 1 \<and> count_list ks Id_kind \<le> 1 \<and>
     count_list ks PseudoElement_kind \<le> 1"
  by (simp add: once_each_def SINGLETON_KINDS_def)

subsection \<open>One call\<close>

lemma fst_and_then: "fst (and_then r f) = fst r"
  by (cases r; cases "fst r") (auto simp: and_then_def)

lemma snd_and_then_Throw: "fst r = Throw e \<Longrightarrow> snd (and_then r f) = snd r"
  by (cases r) (auto simp: and_then_def)

lemma apply_fragment_eq:
  "apply_fragment this (k, v) =
     and_then (errorHandler this (tag k)) (\<lambda>t. t\<lparr>res := res t @ rendered (k, v)\<rparr>)"
  by (cases k)
    (simp_all add: element_def id_selector_def class_selector_def attr_def
      pseudoClass_def pseudoElement_def)

lemma facade_first_call:
  "cssSelectorBuilder_element v = apply_fragment new_BuilderHelper (Element_kind, v)"
  "cssSelectorBuilder_id v = apply_fragment new_BuilderHelper (Id_kind, v)"
  "cssSelectorBuilder_class v = apply_fragment new_BuilderHelper (Class_kind, v)"
  "cssSelectorBuilder_attr v = apply_fragment new_BuilderHelper (Attribute_kind, v)"
  "cssSelectorBuilder_pseudoClass v = apply_fragment new_BuilderHelper (PseudoClass_kind, v)"
  "cssSelectorBuilder_pseudoElement v = apply_fragment new_BuilderHelper (PseudoElement_kind, v)"
  by (simp_all add: cssSelectorBuilder_element_def cssSelectorBuilder_id_def
      cssSelectorBuilder_class_def cssSelectorBuilder_attr_def cssSelectorBuilder_pseudoClass_def
      cssSelectorBuilder_pseudoElement_def)

lemma errorHandler_empty:
  "usedSelectors this = [] \<Longrightarrow>
   errorHandler this (tag k) = (Normal, this\<lparr>usedSelectors := [tag k]\<rparr>)"
  by (simp add: errorHandler_def at_last_Nil ToString_def order_undefined js_gt_def)

lemma errorHandler_last:
  "usedSelectors this = us @ [tag j] \<Longrightarrow>
   errorHandler this (tag k) =
     (if k \<in> SINGLETON_KINDS \<and> tag k \<in> set (usedSelectors this)
      then (Throw (Error firstErr), this)
      else if RANK k < RANK j then (Throw (Error secondErr), this)
      else (Normal, this\<lparr>usedSelectors := usedSelectors this @ [tag k]\<rparr>))"
  by (auto simp: errorHandler_def at_last_snoc ToString_def order_tag js_gt_def tag_unique)

lemma errorHandler_Throw_state:
  "fst (errorHandler this s) = Throw e \<Longrightarrow> snd (errorHandler this s) = this"
  by (auto simp: errorHandler_def split: if_splits)

lemma errorHandler_tags:
  "usedSelectors this = map tag ks \<Longrightarrow>
   errorHandler this (tag k) =
     (if k \<in> SINGLETON_KINDS \<and> k \<in> set ks then (Throw (Error firstErr), this)
      else if ks \<noteq> [] \<and> RANK k < RANK (last ks) then (Throw (Error secondErr), this)
      else (Normal, this\<lparr>usedSelectors := map tag (ks @ [k])\<rparr>))"
proof (cases ks rule: rev_cases)
  case Nil
  assume "usedSelectors this = map tag ks"
  with Nil show ?thesis by (simp add: errorHandler_empty)
next
  case (snoc js j)
  assume u: "usedSelectors this = map tag ks"
  with snoc have "usedSelectors this = map tag js @ [tag j]" by simp
  from errorHandler_last [OF this, of k] u snoc show ?thesis
    by (simp add: tag_mem_iff tag_eq_iff) (auto simp: tag_eq_iff)
qed

lemma apply_fragment_tags:
  "usedSelectors this = map tag ks \<Longrightarrow>
   apply_fragment this (k, v) =
     (if k \<in> SINGLETON_KINDS \<and> k \<in> set ks then (Throw (Error firstErr), this)
      else if ks \<noteq> [] \<and> RANK k < RANK (last ks) then (Throw (Error secondErr), this)
      else (Normal, \<lparr>res = res this @ rendered (k, v), usedSelectors = map tag (ks @ [k])\<rparr>))"
  by (simp add: apply_fragment_eq errorHandler_tags and_then_def)

subsection \<open>The validation rules, one kind at a time\<close>

lemma count_le_1_snoc: "count_list (ks @ [k]) k \<le> 1 \<longleftrightarrow> k \<notin> set ks"
  by (induction ks) auto

lemma once_each_snoc:
  "once_each (ks @ [k]) \<longleftrightarrow> once_each ks \<and> \<not> (k \<in> SINGLETON_KINDS \<and> k \<in> set ks)"
  using count_le_1_snoc [of ks k]
  by (cases k) (auto simp: once_each_def SINGLETON_KINDS_def)

lemma sorted_ranks_snoc:
  "sorted (map RANK ks @ [RANK k]) \<longleftrightarrow>
     sorted (map RANK ks) \<and> \<not> (ks \<noteq> [] \<and> RANK k < RANK (last ks))"
proof (cases ks rule: rev_cases)
  case Nil
  then show ?thesis by simp
next
  case (snoc js j)
  then show ?thesis
    by (auto simp: sorted_append)
qed

lemma valid_kinds_snoc:
  "valid_kinds (ks @ [k]) \<longleftrightarrow>
     valid_kinds ks \<and> \<not> (k \<in> SINGLETON_KINDS \<and> k \<in> set ks) \<and>
     \<not> (ks \<noteq> [] \<and> RANK k < RANK (last ks))"
  unfolding valid_kinds_def once_each_snoc map_append list.map sorted_ranks_snoc
  by blast

lemma valid_kinds_prefix: "valid_kinds (ks @ js) \<Longrightarrow> valid_kinds ks"
  by (auto simp: valid_kinds_def sorted_append once_each_def)

subsection \<open>Chains of calls\<close>

lemma chain_valid:
  "usedSelectors this = map tag ks \<Longrightarrow> valid_kinds (ks @ map fst fs) \<Longrightarrow>
   chain this fs =
     (Normal, \<lparr>res = res this @ concat (map rendered fs),
               usedSelectors = map tag (ks @ map fst fs)\<rparr>)"
proof (induction fs arbitrary: this ks)
  case Nil
  then show ?case by simp
next
  case (Cons f fs)
  obtain k v where f: "f = (k, v)" by (cases f)
  from Cons.prems(2) have v': "valid_kinds ((ks @ [k]) @ map fst fs)"
    by (simp add: f)
  then have "valid_kinds (ks @ [k])"
    by (rule valid_kinds_prefix)
  then have ok: "\<not> (k \<in> SINGLETON_KINDS \<and> k \<in> set ks)"
      "\<not> (ks \<noteq> [] \<and> RANK k < RANK (last ks))"
    by (simp_all add: valid_kinds_snoc)
  let ?b = "\<lparr>res = res this @ rendered (k, v), usedSelectors = map tag (ks @ [k])\<rparr>"
  have step: "apply_fragment this f = (Normal, ?b)"
    using ok by (simp add: f apply_fragment_tags [OF Cons.prems(1)])
  have ih: "chain ?b fs =
     (Normal, \<lparr>res = res ?b @ concat (map rendered fs),
               usedSelectors = map tag ((ks @ [k]) @ map fst fs)\<rparr>)"
    by (rule Cons.IH [OF _ v']) simp
  have "chain this (f # fs) = chain ?b fs"
    by (simp only: chain.simps step prod.case completion.case)
  also note ih
  finally show ?case
    by (simp add: f)
qed

text \<open>
  C1. Any sequence of fragment calls whose kinds have non-decreasing ranks and hold each of
  element, id and pseudo-element at most once, chained on a fresh builder, runs to its end
  without a throw, and \<^verbatim>\<open>stringify()\<close> on the result is the concatenation of the
  rendered forms of the fragments in call order, with nothing between them.
\<close>

theorem stringify_chain:
  "valid_kinds (map fst fs) \<Longrightarrow>
   fst (chain new_BuilderHelper fs) = Normal \<and>
   fst (stringify (snd (chain new_BuilderHelper fs))) = concat (map rendered fs)"
  using chain_valid [of new_BuilderHelper "[]" fs]
  by (simp add: new_BuilderHelper_def stringify_def)

theorem stringify_chain_witness:
  "valid_kinds (map fst [(Element_kind, ''div''), (Id_kind, ''main''),
                         (Class_kind, ''container''), (Class_kind, ''draggable'')]) \<and>
   fst (chain new_BuilderHelper [(Element_kind, ''div''), (Id_kind, ''main''),
                         (Class_kind, ''container''), (Class_kind, ''draggable'')]) = Normal \<and>
   fst (stringify (snd (chain new_BuilderHelper [(Element_kind, ''div''), (Id_kind, ''main''),
                         (Class_kind, ''container''), (Class_kind, ''draggable'')])))
     = ''div#main.container.draggable''"
proof -
  have a: "valid_kinds (map fst [(Element_kind, ''div''), (Id_kind, ''main''),
                         (Class_kind, ''container''), (Class_kind, ''draggable'')])"
    by (simp add: valid_kinds_def once_each_def SINGLETON_KINDS_def)
  show ?thesis
    using a stringify_chain [OF a] by simp
qed

text \<open>
  C2. On any builder, a call of the element, id or pseudo-element method whose tag is
  already among the builder's applied kinds throws the error of the first check, the one
  with the message \<open>firstErr\<close>. Nothing is assumed about the ranks, so this is also the
  error thrown when the order check would have failed as well.
\<close>

theorem duplicate_singleton_first:
  "k \<in> SINGLETON_KINDS \<Longrightarrow> tag k \<in> set (usedSelectors this) \<Longrightarrow>
   fst (apply_fragment this (k, v)) = Throw (Error firstErr) \<and>
   fst (apply_fragment this (k, v)) \<noteq> Throw (Error secondErr)"
  by (simp add: apply_fragment_eq fst_and_then errorHandler_def tag_unique errors_differ)

theorem duplicate_singleton_first_witness:
  "Id_kind \<in> SINGLETON_KINDS \<and>
   tag Id_kind \<in> set (usedSelectors \<lparr>res = ''#x.y'', usedSelectors = [''id'', ''class'']\<rparr>) \<and>
   js_gt (order ''class'') (order (tag Id_kind)) \<and>
   fst (apply_fragment \<lparr>res = ''#x.y'', usedSelectors = [''id'', ''class'']\<rparr> (Id_kind, ''z''))
     = Throw (Error firstErr) \<and>
   fst (apply_fragment \<lparr>res = ''#x.y'', usedSelectors = [''id'', ''class'']\<rparr> (Id_kind, ''z''))
     \<noteq> Throw (Error secondErr)"
proof -
  have a: "Id_kind \<in> SINGLETON_KINDS"
    by (simp add: SINGLETON_KINDS_def)
  have b: "tag Id_kind \<in> set (usedSelectors \<lparr>res = ''#x.y'', usedSelectors = [''id'', ''class'']\<rparr>)"
    by simp
  have c: "js_gt (order ''class'') (order (tag Id_kind))"
    by (simp add: order_def js_gt_def)
  show ?thesis
    using a b c duplicate_singleton_first [OF a b, of "''z''"] by blast
qed

text \<open>
  C3, amended. On a builder whose last applied kind is \<open>j\<close>, a call of kind \<open>k\<close> throws
  the error of the order check exactly when the first check does not fire (\<open>k\<close> is not a
  singleton kind already applied) and the rank of \<open>j\<close> is strictly greater than the rank
  of \<open>k\<close>; it returns normally exactly when the first check does not fire and the rank of
  \<open>k\<close> is equal or higher. Only the last applied kind is compared: nothing is assumed
  about the kinds before it. The first call on a fresh builder returns normally.
\<close>

theorem order_violation_iff:
  "(usedSelectors this = us @ [tag j] \<longrightarrow>
      (fst (apply_fragment this (k, v)) = Throw (Error secondErr)) =
        (\<not> (k \<in> SINGLETON_KINDS \<and> tag k \<in> set (usedSelectors this)) \<and> RANK k < RANK j) \<and>
      (fst (apply_fragment this (k, v)) = Normal) =
        (\<not> (k \<in> SINGLETON_KINDS \<and> tag k \<in> set (usedSelectors this)) \<and> RANK j \<le> RANK k)) \<and>
   fst (apply_fragment new_BuilderHelper (k, v)) = Normal"
  by (auto simp: apply_fragment_eq fst_and_then errorHandler_last errorHandler_empty
      new_BuilderHelper_def errors_differ)

theorem order_violation_iff_witness:
  "usedSelectors \<lparr>res = ''.x'', usedSelectors = [''class'']\<rparr> = [] @ [tag Class_kind] \<and>
   RANK Id_kind < RANK Class_kind \<and>
   fst (apply_fragment \<lparr>res = ''.x'', usedSelectors = [''class'']\<rparr> (Id_kind, ''y''))
     = Throw (Error secondErr) \<and>
   RANK Class_kind \<le> RANK Attribute_kind \<and>
   fst (apply_fragment \<lparr>res = ''.x'', usedSelectors = [''class'']\<rparr> (Attribute_kind, ''y''))
     = Normal \<and>
   fst (apply_fragment new_BuilderHelper (PseudoElement_kind, ''after'')) = Normal"
proof -
  have a: "usedSelectors \<lparr>res = ''.x'', usedSelectors = [''class'']\<rparr> = [] @ [tag Class_kind]"
    by simp
  show ?thesis
    using a
      order_violation_iff [of "\<lparr>res = ''.x'', usedSelectors = [''class'']\<rparr>" "[]" Class_kind
        Id_kind "''y''"]
      order_violation_iff [of "\<lparr>res = ''.x'', usedSelectors = [''class'']\<rparr>" "[]" Class_kind
        Attribute_kind "''y''"]
      order_violation_iff [of _ _ _ PseudoElement_kind "''after''"]
    by (simp add: SINGLETON_KINDS_def)
qed

text \<open>
  Without the proviso on the first check the equivalence fails. After
  \<^verbatim>\<open>id('x').class('y')\<close> the last applied kind, class, has a rank strictly greater
  than that of id, yet \<^verbatim>\<open>.id('z')\<close> throws the error of the first check, not that
  of the order check.
\<close>

theorem order_violation_counterexample:
  "fst (chain new_BuilderHelper [(Id_kind, ''x''), (Class_kind, ''y'')]) = Normal \<and>
   usedSelectors (snd (chain new_BuilderHelper [(Id_kind, ''x''), (Class_kind, ''y'')]))
     = [tag Id_kind, tag Class_kind] \<and>
   fst (apply_fragment (snd (chain new_BuilderHelper [(Id_kind, ''x''), (Class_kind, ''y'')]))
          (Id_kind, ''z'')) = Throw (Error firstErr) \<and>
   \<not> ((fst (apply_fragment (snd (chain new_BuilderHelper [(Id_kind, ''x''), (Class_kind, ''y'')]))
            (Id_kind, ''z'')) = Throw (Error secondErr))
      = (RANK Id_kind < RANK Class_kind))"
  by (simp add: new_BuilderHelper_def id_selector_def class_selector_def errorHandler_def
      uniqueSelectors_def at_last_def ToString_def order_def js_gt_def and_then_def
      firstErr_def secondErr_def)

text \<open>
  C5. A fragment call that throws leaves the builder as it was before the call: its text
  and its applied kinds are unchanged.
\<close>

theorem failure_leaves_builder:
  "fst (apply_fragment this f) = Throw e \<Longrightarrow> snd (apply_fragment this f) = this"
proof -
  assume t: "fst (apply_fragment this f) = Throw e"
  obtain k v where f: "f = (k, v)" by (cases f)
  from t have "fst (errorHandler this (tag k)) = Throw e"
    by (simp add: f apply_fragment_eq fst_and_then)
  then show ?thesis
    by (simp add: f apply_fragment_eq snd_and_then_Throw errorHandler_Throw_state)
qed

theorem failure_leaves_builder_witness:
  "fst (apply_fragment \<lparr>res = ''.x'', usedSelectors = [''class'']\<rparr> (Id_kind, ''y''))
     = Throw (Error secondErr) \<and>
   snd (apply_fragment \<lparr>res = ''.x'', usedSelectors = [''class'']\<rparr> (Id_kind, ''y''))
     = \<lparr>res = ''.x'', usedSelectors = [''class'']\<rparr>"
proof -
  have a: "fst (apply_fragment \<lparr>res = ''.x'', usedSelectors = [''class'']\<rparr> (Id_kind, ''y''))
     = Throw (Error secondErr)"
    by (simp add: id_selector_def errorHandler_def uniqueSelectors_def at_last_def ToString_def
        order_def js_gt_def and_then_def)
  show ?thesis
    using a failure_leaves_builder [OF a] by blast
qed

subsection \<open>Every state a builder can reach\<close>

lemma consistent_attempt: "consistent s \<Longrightarrow> consistent (attempt s f)"
proof -
  assume c: "consistent s"
  obtain this accepted where s: "s = (this, accepted)" by (cases s)
  obtain k v where f: "f = (k, v)" by (cases f)
  from c have u: "usedSelectors this = map tag (map fst accepted)"
    and r: "res this = concat (map rendered accepted)"
    and w: "valid_kinds (map fst accepted)"
    by (simp_all add: consistent_def s)
  show ?thesis
    using r w valid_kinds_snoc [of "map fst accepted" k]
    by (simp add: s f consistent_def apply_fragment_tags [OF u] u)
qed

lemma consistent_foldl: "consistent s \<Longrightarrow> consistent (foldl attempt s fs)"
  by (induction fs arbitrary: s) (simp_all add: consistent_attempt)

lemma consistent_session: "consistent (session fs)"
  unfolding session_def
  by (rule consistent_foldl)
    (simp add: consistent_def new_BuilderHelper_def valid_kinds_def once_each_def)

lemma attempt_prefix:
  "prefix (snd s) (snd (attempt s f)) \<and> prefix (res (fst s)) (res (fst (attempt s f)))"
proof -
  obtain this accepted where s: "s = (this, accepted)" by (cases s)
  obtain k v where f: "f = (k, v)" by (cases f)
  show ?thesis
    by (simp add: s f apply_fragment_eq and_then_def errorHandler_def)
qed

lemma foldl_attempt_prefix:
  "prefix (snd s) (snd (foldl attempt s gs)) \<and>
   prefix (res (fst s)) (res (fst (foldl attempt s gs)))"
proof (induction gs arbitrary: s)
  case Nil
  show ?case by simp
next
  case (Cons g gs)
  from attempt_prefix [of s g] Cons [of "attempt s g"] show ?case
    by (auto intro: prefix_order.trans)
qed

lemma session_prefix:
  "prefix (snd (session fs)) (snd (session (fs @ gs))) \<and>
   prefix (res (fst (session fs))) (res (fst (session (fs @ gs))))"
  using foldl_attempt_prefix [of "session fs" gs] by (simp add: session_def)

text \<open>
  C6. After any list of fragment calls on a builder created fresh (calls that throw
  included, the caller keeping the object), the builder's applied kinds are the tags of
  the fragments it accepted, their ranks are non-decreasing, each of element, id and
  pseudo-element occurs among them at most once, and the text is the concatenation of
  the accepted fragments' rendered forms in the order of acceptance. Whatever calls
  follow, the accepted fragments and the text so far stay as a prefix: nothing is removed
  or reordered.
\<close>

theorem reachable_invariants:
  "session fs = (this, accepted) \<Longrightarrow>
     usedSelectors this = map tag (map fst accepted) \<and>
     sorted (map RANK (map fst accepted)) \<and>
     (\<forall>k \<in> SINGLETON_KINDS. count_list (map fst accepted) k \<le> 1) \<and>
     res this = concat (map rendered accepted) \<and>
     prefix accepted (snd (session (fs @ gs))) \<and>
     prefix (res this) (res (fst (session (fs @ gs))))"
  using consistent_session [of fs] session_prefix [of fs gs]
  by (simp add: consistent_def valid_kinds_def once_each_def)

theorem reachable_invariants_witness:
  "session [(Id_kind, ''x''), (Class_kind, ''y''), (Id_kind, ''z''), (Element_kind, ''a''),
            (Attribute_kind, ''q'')]
     = (\<lparr>res = ''#x.y[q]'', usedSelectors = [''id'', ''class'', ''attribute'']\<rparr>,
        [(Id_kind, ''x''), (Class_kind, ''y''), (Attribute_kind, ''q'')]) \<and>
   sorted (map RANK [Id_kind, Class_kind, Attribute_kind]) \<and>
   count_list [Id_kind, Class_kind, Attribute_kind] Id_kind \<le> 1 \<and>
   ''#x.y[q]'' = concat (map rendered [(Id_kind, ''x''), (Class_kind, ''y''), (Attribute_kind, ''q'')])"
proof -
  have a: "session [(Id_kind, ''x''), (Class_kind, ''y''), (Id_kind, ''z''), (Element_kind, ''a''),
            (Attribute_kind, ''q'')]
     = (\<lparr>res = ''#x.y[q]'', usedSelectors = [''id'', ''class'', ''attribute'']\<rparr>,
        [(Id_kind, ''x''), (Class_kind, ''y''), (Attribute_kind, ''q'')])"
    by (simp add: session_def new_BuilderHelper_def element_def id_selector_def class_selector_def
        attr_def errorHandler_def uniqueSelectors_def at_last_def ToString_def order_def js_gt_def
        and_then_def)
  show ?thesis
    using a reachable_invariants [OF a, of "[]"] by (simp add: SINGLETON_KINDS_def)
qed

subsection \<open>The messages\<close>

text \<open>
  C7, amended. An error thrown by a fragment call carries one of two fixed messages. When
  the first check fires (a singleton kind applied again) it is
  \<^verbatim>\<open>Element, id and pseudo-element should not occur more then one time inside the selector\<close>;
  otherwise, the order check having fired, it is
  \<^verbatim>\<open>Selector parts should be arranged in the following order: element, id, class, attribute, pseudo-class, pseudo-element\<close>.
\<close>

theorem thrown_messages:
  "fst (apply_fragment this (k, v)) = Throw e \<Longrightarrow>
     (if k \<in> SINGLETON_KINDS \<and> tag k \<in> set (usedSelectors this)
      then e = Error ''Element, id and pseudo-element should not occur more then one time inside the selector''
      else e = Error ''Selector parts should be arranged in the following order: element, id, class, attribute, pseudo-class, pseudo-element'')"
  by (auto simp: apply_fragment_eq fst_and_then errorHandler_def tag_unique firstErr_def
      secondErr_def split: if_splits)

theorem thrown_messages_witness:
  "fst (apply_fragment (snd (cssSelectorBuilder_id ''x'')) (Id_kind, ''y''))
     = Throw (Error ''Element, id and pseudo-element should not occur more then one time inside the selector'') \<and>
   fst (apply_fragment (snd (cssSelectorBuilder_class ''x'')) (Id_kind, ''y''))
     = Throw (Error ''Selector parts should be arranged in the following order: element, id, class, attribute, pseudo-class, pseudo-element'')"
proof -
  have a: "fst (apply_fragment (snd (cssSelectorBuilder_id ''x'')) (Id_kind, ''y''))
     = Throw (Error firstErr)"
    by (simp add: cssSelectorBuilder_id_def new_BuilderHelper_def id_selector_def errorHandler_def
        uniqueSelectors_def at_last_def ToString_def order_def js_gt_def and_then_def)
  have b: "fst (apply_fragment (snd (cssSelectorBuilder_class ''x'')) (Id_kind, ''y''))
     = Throw (Error secondErr)"
    by (simp add: cssSelectorBuilder_class_def new_BuilderHelper_def id_selector_def
        class_selector_def errorHandler_def uniqueSelectors_def at_last_def ToString_def
        order_def js_gt_def and_then_def)
  have c: "tag Id_kind \<in> set (usedSelectors (snd (cssSelectorBuilder_id ''x'')))"
    by (simp add: cssSelectorBuilder_id_def new_BuilderHelper_def id_selector_def errorHandler_def
        uniqueSelectors_def at_last_def ToString_def order_def js_gt_def and_then_def)
  have d: "tag Id_kind \<notin> set (usedSelectors (snd (cssSelectorBuilder_class ''x'')))"
    by (simp add: cssSelectorBuilder_class_def new_BuilderHelper_def class_selector_def
        errorHandler_def uniqueSelectors_def at_last_def ToString_def order_def js_gt_def
        and_then_def)
  have m1: "Error firstErr = Error ''Element, id and pseudo-element should not occur more then one time inside the selector''"
    using c thrown_messages [OF a] by (simp add: SINGLETON_KINDS_def)
  have m2: "Error secondErr = Error ''Selector parts should be arranged in the following order: element, id, class, attribute, pseudo-class, pseudo-element''"
    using d thrown_messages [OF b] by (simp add: SINGLETON_KINDS_def)
  show ?thesis
    unfolding m1 [symmetric] m2 [symmetric] using a b by blast
qed

text \<open>
  The messages as the specification quotes them are not the ones thrown:
  \<^verbatim>\<open>id('x').id('y')\<close> and \<^verbatim>\<open>class('x').id('y')\<close> throw, and neither error
  carries the quoted text, which starts with a small letter and reads \<^verbatim>\<open>than\<close> in
  the first message.
\<close>

theorem thrown_messages_counterexample:
  "fst (chain new_BuilderHelper [(Id_kind, ''x''), (Id_kind, ''y'')]) = Throw (Error firstErr) \<and>
   firstErr \<noteq> ''element, id and pseudo-element should not occur more than one time inside the selector'' \<and>
   fst (chain new_BuilderHelper [(Class_kind, ''x''), (Id_kind, ''y'')]) = Throw (Error secondErr) \<and>
   secondErr \<noteq> ''selector parts should be arranged in the following order: element, id, class, attribute, pseudo-class, pseudo-element''"
  by (simp add: new_BuilderHelper_def id_selector_def class_selector_def errorHandler_def
      uniqueSelectors_def at_last_def ToString_def order_def js_gt_def and_then_def
      firstErr_def secondErr_def)

subsection \<open>Reading the text\<close>

text \<open>
  C8. \<^verbatim>\<open>stringify()\<close> on a builder leaves the builder as it is and returns its text;
  after any number of calls the builder is still the same and the next call returns the
  same string. On a builder with no fragment it returns the empty string.
\<close>

theorem stringify_pure:
  "snd (stringify this) = this \<and>
   ((\<lambda>b. snd (stringify b)) ^^ n) this = this \<and>
   fst (stringify (((\<lambda>b. snd (stringify b)) ^^ n) this)) = fst (stringify this) \<and>
   fst (stringify this) = res this \<and>
   fst (stringify new_BuilderHelper) = ''''"
proof -
  have "((\<lambda>b. snd (stringify b)) ^^ n) this = this"
    by (induction n) (simp_all add: stringify_def)
  then show ?thesis
    by (simp add: stringify_def new_BuilderHelper_def)
qed

subsection \<open>Combining\<close>

lemma combine_text:
  "ToString (res_of (snd (combine this s1 c s2)) (fst (combine this s1 c s2))) =
     ToString (res_of this s1) @ '' '' @ c @ '' '' @ ToString (res_of this s2)"
  by (simp add: combine_def res_of_def ToString_def)

lemma eval_Combine:
  "eval this (Combine l c r) =
     combine (snd (eval (snd (eval this l)) r)) (fst (eval this l)) c
       (fst (eval (snd (eval this l)) r))"
  by (simp split: prod.splits)

lemma res_of_Builder: "res_of this (Builder b) = Some (res b)"
  by (simp add: res_of_def)

lemma stringify_of_res_of: "stringify_of this s = res_of this s"
  by (cases s) (simp_all add: stringify_of_def res_of_def stringify_def
      cssSelectorBuilder_stringify_def)

lemma res_of_eval_defined: "res_of (snd (eval this e)) (fst (eval this e)) \<noteq> None"
  by (cases e) (simp_all add: res_of_def combine_def split: prod.splits)

text \<open>
  What holds of nested calls: as long as no call has combinations for both arguments, the
  result reads as the composed text, at any depth. This covers a single call on two
  builders and the nesting of the example in the source's comment.
\<close>

lemma eval_linear:
  "linear e \<Longrightarrow> ToString (res_of (snd (eval this e)) (fst (eval this e))) = text_of e"
proof (induction e arbitrary: this)
  case (Sel b)
  show ?case by (simp add: res_of_def ToString_def)
next
  case (Combine l c r)
  show ?case
  proof (cases l)
    case (Sel a)
    with Combine.prems have "linear r" by simp
    then have "ToString (res_of (snd (eval this r)) (fst (eval this r))) = text_of r"
      by (rule Combine.IH(2))
    then show ?thesis
      by (simp only: eval_Combine combine_text Sel eval.simps fst_conv snd_conv res_of_Builder
          text_of.simps) (simp add: ToString_def)
  next
    case l: (Combine l1 c1 l2)
    with Combine.prems obtain b where r: "r = Sel b" and ll: "linear l"
      by (cases r) simp_all
    from ll have "ToString (res_of (snd (eval this l)) (fst (eval this l))) = text_of l"
      by (rule Combine.IH(1))
    then show ?thesis
      by (simp only: eval_Combine combine_text r eval.simps fst_conv snd_conv res_of_Builder
          text_of.simps) (simp add: ToString_def)
  qed
qed

lemma stringify_linear:
  "linear e \<Longrightarrow> stringify_of (snd (eval this e)) (fst (eval this e)) = Some (text_of e)"
  using eval_linear [of e this] res_of_eval_defined [of this e]
  by (cases "res_of (snd (eval this e)) (fst (eval this e))")
    (simp_all add: stringify_of_res_of ToString_def)

text \<open>
  C4. \<^verbatim>\<open>combine(combine(a, '+', b), '>', combine(c, '~', d))\<close>, the leaves being
  the builders of \<^verbatim>\<open>element('a')\<close> to \<^verbatim>\<open>element('d')\<close>: both inner calls
  return the facade object, the second having overwritten the text of the first, so the
  outer call reads the same text twice. \<^verbatim>\<open>stringify()\<close> on the result gives
  \<^verbatim>\<open>c ~ d > c ~ d\<close>, where the composed text is \<^verbatim>\<open>a + b > c ~ d\<close>.
\<close>

theorem combine_nested_both_sides:
  "stringify_of
     (snd (eval cssSelectorBuilder_init
        (Combine
          (Combine (Sel (snd (cssSelectorBuilder_element ''a''))) ''+''
                   (Sel (snd (cssSelectorBuilder_element ''b''))))
          ''>''
          (Combine (Sel (snd (cssSelectorBuilder_element ''c''))) ''~''
                   (Sel (snd (cssSelectorBuilder_element ''d'')))))))
     (fst (eval cssSelectorBuilder_init
        (Combine
          (Combine (Sel (snd (cssSelectorBuilder_element ''a''))) ''+''
                   (Sel (snd (cssSelectorBuilder_element ''b''))))
          ''>''
          (Combine (Sel (snd (cssSelectorBuilder_element ''c''))) ''~''
                   (Sel (snd (cssSelectorBuilder_element ''d'')))))))
     = Some ''c ~ d > c ~ d'' \<and>
   text_of
     (Combine
       (Combine (Sel (snd (cssSelectorBuilder_element ''a''))) ''+''
                (Sel (snd (cssSelectorBuilder_element ''b''))))
       ''>''
       (Combine (Sel (snd (cssSelectorBuilder_element ''c''))) ''~''
                (Sel (snd (cssSelectorBuilder_element ''d'')))))
     = ''a + b > c ~ d''"
proof -
  have leaf: "snd (cssSelectorBuilder_element v) = \<lparr>res = v, usedSelectors = [''element'']\<rparr>" for v
    by (simp add: cssSelectorBuilder_element_def new_BuilderHelper_def element_def
        errorHandler_def uniqueSelectors_def at_last_def ToString_def order_def js_gt_def
        and_then_def)
  show ?thesis
    by (simp add: leaf combine_def res_of_def ToString_def stringify_of_def
        cssSelectorBuilder_stringify_def cssSelectorBuilder_init_def)
qed

text \<open>
  C9. \<^verbatim>\<open>combine\<close> returns the facade object and keeps the combined text in the
  facade's \<^verbatim>\<open>res\<close>. Of two calls in succession both results are that one object:
  \<^verbatim>\<open>stringify()\<close> on the first result gave the first call's text before the second
  call, and gives the second call's text after it.
\<close>

theorem combine_shared_result:
  "combine this a c1 b = (r1, this1) \<Longrightarrow> combine this1 x c2 y = (r2, this2) \<Longrightarrow>
   r1 = Facade \<and> r2 = Facade \<and>
   stringify_of this1 r1 =
     Some (ToString (res_of this a) @ '' '' @ c1 @ '' '' @ ToString (res_of this b)) \<and>
   stringify_of this2 r1 =
     Some (ToString (res_of this1 x) @ '' '' @ c2 @ '' '' @ ToString (res_of this1 y)) \<and>
   stringify_of this2 r1 = stringify_of this2 r2"
  by (auto simp: combine_def stringify_of_def cssSelectorBuilder_stringify_def)

theorem combine_shared_result_witness:
  "combine cssSelectorBuilder_init (Builder (snd (cssSelectorBuilder_element ''div''))) ''+''
     (Builder (snd (cssSelectorBuilder_element ''p'')))
     = (Facade, \<lparr>facade_res = Some ''div + p''\<rparr>) \<and>
   combine \<lparr>facade_res = Some ''div + p''\<rparr> (Builder (snd (cssSelectorBuilder_element ''a''))) ''~''
     (Builder (snd (cssSelectorBuilder_element ''b'')))
     = (Facade, \<lparr>facade_res = Some ''a ~ b''\<rparr>) \<and>
   stringify_of \<lparr>facade_res = Some ''div + p''\<rparr> Facade = Some ''div + p'' \<and>
   stringify_of \<lparr>facade_res = Some ''a ~ b''\<rparr> Facade = Some ''a ~ b''"
proof -
  have c: "res (snd (cssSelectorBuilder_element v)) = v" for v
    by (simp add: cssSelectorBuilder_element_def new_BuilderHelper_def element_def errorHandler_def
        uniqueSelectors_def at_last_def ToString_def order_def js_gt_def and_then_def)
  have a: "combine cssSelectorBuilder_init (Builder (snd (cssSelectorBuilder_element ''div''))) ''+''
     (Builder (snd (cssSelectorBuilder_element ''p'')))
     = (Facade, \<lparr>facade_res = Some ''div + p''\<rparr>)"
    by (simp add: combine_def cssSelectorBuilder_init_def res_of_def ToString_def c)
  have b: "combine \<lparr>facade_res = Some ''div + p''\<rparr> (Builder (snd (cssSelectorBuilder_element ''a''))) ''~''
     (Builder (snd (cssSelectorBuilder_element ''b'')))
     = (Facade, \<lparr>facade_res = Some ''a ~ b''\<rparr>)"
    by (simp add: combine_def res_of_def ToString_def c)
  show ?thesis
    using a b combine_shared_result [OF a b]
    by (simp add: res_of_def ToString_def c cssSelectorBuilder_init_def)
qed

text \<open>
  C10. \<^verbatim>\<open>stringify()\<close> on the facade object before any call of \<^verbatim>\<open>combine\<close>
  reads a property that does not exist yet: the result is \<^verbatim>\<open>undefined\<close>, not the
  empty string.
\<close>

theorem facade_stringify_undefined:
  "fst (cssSelectorBuilder_stringify cssSelectorBuilder_init) = None \<and>
   fst (cssSelectorBuilder_stringify cssSelectorBuilder_init) \<noteq> Some '''' \<and>
   stringify_of cssSelectorBuilder_init Facade = None"
  by (simp add: cssSelectorBuilder_stringify_def cssSelectorBuilder_init_def stringify_of_def)

end
